theory Spec2Isabelle
  imports Complex_Main
begin

section \<open>Values loaded from a recipe file\<close>

text \<open>
  \<^verbatim>\<open>yaml.safe_load\<close> returns a nested value of mappings, sequences and scalars. The
  model covers null, booleans, integers, strings, sequences and mappings with string
  keys; a mapping is an association list in the mapping's iteration order (its keys are
  distinct in every loaded value). Floats, dates and non-string keys are outside the
  model. Strings are ASCII text; the three non-ASCII glyphs the program prints are
  written as their UTF-8 bytes.
\<close>

datatype yaml =
    YNull
  | YBool bool
  | YInt int
  | YStr string
  | YList "yaml list"
  | YDict "(string \<times> yaml) list"

text \<open>The exception classes the program can meet; all of them derive from \<^verbatim>\<open>Exception\<close>.\<close>

datatype exn =
    TypeError
  | KeyError
  | AttributeError
  | ValueError
  | IndexError
  | FPDFException
  | OSError
  | YAMLError

section \<open>Python string operations\<close>

definition digit_char :: "nat \<Rightarrow> char" where
  "digit_char n = ''0123456789abcdef'' ! n"

fun str_nat :: "nat \<Rightarrow> string" where
  "str_nat n = (if n < 10 then [digit_char n] else str_nat (n div 10) @ [digit_char (n mod 10)])"

declare str_nat.simps [simp del]

definition str_int :: "int \<Rightarrow> string" where
  "str_int i = (if i < 0 then CHR ''-'' # str_nat (nat (- i)) else str_nat (nat i))"

text \<open>\<^verbatim>\<open>sep.join(parts)\<close> on a list of strings.\<close>

fun py_join :: "string \<Rightarrow> string list \<Rightarrow> string" where
  "py_join sep [] = []"
| "py_join sep [x] = x"
| "py_join sep (x # y # ys) = x @ sep @ py_join sep (y # ys)"

text \<open>The ASCII characters for which \<^verbatim>\<open>str.isspace\<close> holds: tab, line feed, vertical tab,
  form feed, carriage return, the four separators 0x1C to 0x1F, and space.\<close>

definition py_isspace :: "char \<Rightarrow> bool" where
  "py_isspace c = (c \<in> set [CHR 0x09, CHR 0x0A, CHR 0x0B, CHR 0x0C, CHR 0x0D,
                            CHR 0x1C, CHR 0x1D, CHR 0x1E, CHR 0x1F, CHR 0x20])"

definition py_strip :: "string \<Rightarrow> string" where
  "py_strip s = rev (dropWhile py_isspace (rev (dropWhile py_isspace s)))"

text \<open>\<^verbatim>\<open>s.split(d)\<close> for a one-character separator: always at least one part.\<close>

fun split_on :: "char \<Rightarrow> string \<Rightarrow> string list" where
  "split_on d [] = [[]]"
| "split_on d (c # cs) =
     (if c = d then [] # split_on d cs
      else (case split_on d cs of
              [] \<Rightarrow> [[c]]
            | p # ps \<Rightarrow> (c # p) # ps))"

text \<open>\<^verbatim>\<open>repr\<close> of a string: single quotes unless the string holds a single quote and no
  double quote; backslash, the chosen quote, tab, line feed and carriage return are
  escaped, other control characters are written \<^verbatim>\<open>\xNN\<close>.\<close>

definition repr_quote :: "string \<Rightarrow> char" where
  "repr_quote s = (if CHR 0x27 \<in> set s \<and> CHR 0x22 \<notin> set s then CHR 0x22 else CHR 0x27)"

definition repr_char :: "char \<Rightarrow> char \<Rightarrow> string" where
  "repr_char q c =
     (if c = q \<or> c = CHR 0x5C then [CHR 0x5C, c]
      else if c = CHR 0x09 then [CHR 0x5C, CHR ''t'']
      else if c = CHR 0x0A then [CHR 0x5C, CHR ''n'']
      else if c = CHR 0x0D then [CHR 0x5C, CHR ''r'']
      else if (of_char c :: nat) < 32 \<or> (of_char c :: nat) = 127
        then [CHR 0x5C, CHR ''x'', digit_char ((of_char c :: nat) div 16),
              digit_char ((of_char c :: nat) mod 16)]
      else [c])"

definition repr_str :: "string \<Rightarrow> string" where
  "repr_str s = (let q = repr_quote s in q # concat (map (repr_char q) s) @ [q])"

fun py_repr :: "yaml \<Rightarrow> string" where
  "py_repr YNull = ''None''"
| "py_repr (YBool b) = (if b then ''True'' else ''False'')"
| "py_repr (YInt i) = str_int i"
| "py_repr (YStr s) = repr_str s"
| "py_repr (YList xs) = ''['' @ py_join '', '' (map py_repr xs) @ '']''"
| "py_repr (YDict kvs) =
     ''{'' @ py_join '', '' (map (\<lambda>kv. repr_str (fst kv) @ '': '' @ py_repr (snd kv)) kvs) @ ''}''"

text \<open>\<^verbatim>\<open>str(v)\<close>, which is also what an f-string field \<^verbatim>\<open>{v}\<close> inserts.\<close>

fun py_str :: "yaml \<Rightarrow> string" where
  "py_str (YStr s) = s"
| "py_str v = py_repr v"

text \<open>\<^verbatim>\<open>bool(v)\<close>.\<close>

fun truthy :: "yaml \<Rightarrow> bool" where
  "truthy YNull = False"
| "truthy (YBool b) = b"
| "truthy (YInt i) = (i \<noteq> 0)"
| "truthy (YStr s) = (s \<noteq> [])"
| "truthy (YList xs) = (xs \<noteq> [])"
| "truthy (YDict kvs) = (kvs \<noteq> [])"

text \<open>\<^verbatim>\<open>int(s)\<close> on a string, base ten: surrounding whitespace is dropped (for ASCII
  text that is tab, line feed, vertical tab, form feed, carriage return and space; the
  separators 0x1C to 0x1F, which \<^verbatim>\<open>str.strip\<close> drops, are not accepted), one sign is
  allowed, and digits may be grouped by single underscores. Anything else is a
  \<^verbatim>\<open>ValueError\<close>. (The interpreter's configurable cap on the number of digits is not
  modelled.)\<close>

definition int_isspace :: "char \<Rightarrow> bool" where
  "int_isspace c = (c \<in> set [CHR 0x09, CHR 0x0A, CHR 0x0B, CHR 0x0C, CHR 0x0D, CHR 0x20])"

definition int_strip :: "string \<Rightarrow> string" where
  "int_strip s = rev (dropWhile int_isspace (rev (dropWhile int_isspace s)))"

definition digit_val :: "char \<Rightarrow> nat option" where
  "digit_val c =
     (let n = (of_char c :: nat) in if 48 \<le> n \<and> n \<le> 57 then Some (n - 48) else None)"

fun digits_val :: "nat \<Rightarrow> string \<Rightarrow> nat option" where
  "digits_val acc [] = Some acc"
| "digits_val acc (c # cs) =
     (case digit_val c of None \<Rightarrow> None | Some d \<Rightarrow> digits_val (10 * acc + d) cs)"

definition parse_digits :: "string \<Rightarrow> nat option" where
  "parse_digits body =
     (let groups = split_on CHR ''_'' body
      in if [] \<in> set groups then None else digits_val 0 (concat groups))"

definition py_int :: "string \<Rightarrow> exn + int" where
  "py_int s =
     (let t = int_strip s;
          (neg, body) = (case t of
                           c # cs \<Rightarrow> if c = CHR ''-'' then (True, cs)
                                     else if c = CHR ''+'' then (False, cs)
                                     else (False, t)
                         | [] \<Rightarrow> (False, t))
      in case parse_digits body of
           None \<Rightarrow> Inl ValueError
         | Some n \<Rightarrow> Inr (if neg then - int n else int n))"

text \<open>\<^verbatim>\<open>xs[i]\<close> for a non-negative index: \<^verbatim>\<open>IndexError\<close> out of range.\<close>

definition py_index :: "'a list \<Rightarrow> nat \<Rightarrow> exn + 'a" where
  "py_index xs i = (if i < length xs then Inr (xs ! i) else Inl IndexError)"

section \<open>Field formatters\<close>

text \<open>The body of the \<^verbatim>\<open>try\<close> block of \<^verbatim>\<open>format_time\<close>.\<close>

definition format_time_try :: "yaml \<Rightarrow> exn + string" where
  "format_time_try time_str =
     (let parts = split_on CHR '':'' (py_str time_str)
      in case py_index parts 0 of Inl e \<Rightarrow> Inl e | Inr p0 \<Rightarrow>
         case py_int p0 of Inl e \<Rightarrow> Inl e | Inr hours \<Rightarrow>
         case py_index parts 1 of Inl e \<Rightarrow> Inl e | Inr p1 \<Rightarrow>
         case py_int p1 of Inl e \<Rightarrow> Inl e | Inr mins \<Rightarrow>
         if hours > 0 then Inr (str_int hours @ ''h '' @ str_int mins @ ''min'')
         else Inr (str_int mins @ '' min''))"

text \<open>\<^verbatim>\<open>except (ValueError, IndexError)\<close> returns \<^verbatim>\<open>str(time_str)\<close>; any other exception
  would leave the function.\<close>

definition format_time :: "yaml \<Rightarrow> exn + string" where
  "format_time time_str =
     (case format_time_try time_str of
        Inr r \<Rightarrow> Inr r
      | Inl e \<Rightarrow> if e = ValueError \<or> e = IndexError then Inr (py_str time_str) else Inl e)"

text \<open>Mapping access. \<^verbatim>\<open>d.get(k, dflt)\<close> and \<^verbatim>\<open>k in d\<close> on a mapping never raise.\<close>

definition dict_get :: "(string \<times> yaml) list \<Rightarrow> string \<Rightarrow> yaml \<Rightarrow> yaml" where
  "dict_get d k dflt = (case map_of d k of None \<Rightarrow> dflt | Some v \<Rightarrow> v)"

definition has_key :: "(string \<times> yaml) list \<Rightarrow> string \<Rightarrow> bool" where
  "has_key d k = (case map_of d k of None \<Rightarrow> False | Some v \<Rightarrow> True)"

text \<open>\<^verbatim>\<open>Path(p).stem\<close> on a POSIX path: the last component that is neither empty nor
  \<^verbatim>\<open>.\<close>, cut at its last dot unless that dot is the first or the last character
  (the rule of \<^verbatim>\<open>pathlib\<close> up to Python 3.13).\<close>

definition path_parts :: "string \<Rightarrow> string list" where
  "path_parts p = filter (\<lambda>c. c \<noteq> [] \<and> c \<noteq> ''.'') (split_on CHR ''/'' p)"

definition path_name :: "string \<Rightarrow> string" where
  "path_name p = (case path_parts p of [] \<Rightarrow> [] | c # cs \<Rightarrow> last (c # cs))"

definition rfind :: "char \<Rightarrow> string \<Rightarrow> nat option" where
  "rfind c s =
     (if c \<in> set s then Some (length s - 1 - length (takeWhile (\<lambda>x. x \<noteq> c) (rev s)))
      else None)"

definition name_stem :: "string \<Rightarrow> string" where
  "name_stem name =
     (case rfind CHR ''.'' name of
        None \<Rightarrow> name
      | Some i \<Rightarrow> if 0 < i \<and> i < length name - 1 then take i name else name)"

definition path_stem :: "string \<Rightarrow> string" where
  "path_stem p = name_stem (path_name p)"

text \<open>\<^verbatim>\<open>s.replace("_", " ")\<close> and \<^verbatim>\<open>s.title()\<close> on ASCII text: a letter that follows a
  letter is lowered, any other letter is raised, everything else is kept.\<close>

definition replace_char :: "char \<Rightarrow> char \<Rightarrow> string \<Rightarrow> string" where
  "replace_char a b s = map (\<lambda>c. if c = a then b else c) s"

definition is_upper :: "char \<Rightarrow> bool" where
  "is_upper c = (65 \<le> (of_char c :: nat) \<and> (of_char c :: nat) \<le> 90)"

definition is_lower :: "char \<Rightarrow> bool" where
  "is_lower c = (97 \<le> (of_char c :: nat) \<and> (of_char c :: nat) \<le> 122)"

definition to_upper :: "char \<Rightarrow> char" where
  "to_upper c = (if is_lower c then char_of ((of_char c :: nat) - 32) else c)"

definition to_lower :: "char \<Rightarrow> char" where
  "to_lower c = (if is_upper c then char_of ((of_char c :: nat) + 32) else c)"

fun title_from :: "bool \<Rightarrow> string \<Rightarrow> string" where
  "title_from prev [] = []"
| "title_from prev (c # cs) =
     (if is_upper c \<or> is_lower c
      then (if prev then to_lower c else to_upper c) # title_from True cs
      else c # title_from False cs)"

definition py_title :: "string \<Rightarrow> string" where
  "py_title s = title_from False s"

text \<open>The clauses \<^verbatim>\<open>format_ingredient\<close> appends, in the order of the source (lines 50 to 63).\<close>

definition alt_clause :: "(string \<times> yaml) list \<Rightarrow> string" where
  "alt_clause d =
     (if has_key d ''amount_alt'' \<and> has_key d ''unit_alt''
      then ''  ('' @ py_str (dict_get d ''amount_alt'' YNull) @ '' ''
             @ py_str (dict_get d ''unit_alt'' YNull) @ '')''
      else if has_key d ''amount_alt''
      then ''  ('' @ py_str (dict_get d ''amount_alt'' YNull) @ '')''
      else [])"

definition optional_clause :: "(string \<times> yaml) list \<Rightarrow> string" where
  "optional_clause d = (if truthy (dict_get d ''optional'' YNull) then ''  [optional]'' else [])"

definition brand_clause :: "(string \<times> yaml) list \<Rightarrow> string" where
  "brand_clause d =
     (if truthy (dict_get d ''brand'' YNull)
      then ''  [Brand: '' @ py_str (dict_get d ''brand'' YNull) @ '']'' else [])"

text \<open>\<^verbatim>\<open>Path(ing["ref"])\<close> raises \<^verbatim>\<open>TypeError\<close> on a value that is not a string.\<close>

definition ref_clause :: "(string \<times> yaml) list \<Rightarrow> exn + string" where
  "ref_clause d =
     (if truthy (dict_get d ''ref'' YNull)
      then (case dict_get d ''ref'' YNull of
              YStr r \<Rightarrow>
                Inr (''  (see: '' @ py_title (replace_char CHR ''_'' CHR '' '' (path_stem r)) @ '')'')
            | _ \<Rightarrow> Inl TypeError)
      else Inr [])"

definition garnish_clause :: "(string \<times> yaml) list \<Rightarrow> string" where
  "garnish_clause d = (if truthy (dict_get d ''garnish'' YNull) then ''  [garnish]'' else [])"

text \<open>Lines 38 to 48: the amount and unit are trimmed and kept when not empty;
  \<^verbatim>\<open>ing["item"]\<close> raises \<^verbatim>\<open>KeyError\<close> when the key is missing, and \<^verbatim>\<open>" ".join(parts)\<close>
  raises \<^verbatim>\<open>TypeError\<close> when the item is not a string.\<close>

definition ingredient_base :: "(string \<times> yaml) list \<Rightarrow> exn + string" where
  "ingredient_base d =
     (let amount_str = py_strip (py_str (dict_get d ''amount'' (YStr [])));
          unit_str = py_strip (py_str (dict_get d ''unit'' (YStr [])));
          parts = (if amount_str \<noteq> [] then [amount_str] else [])
                  @ (if unit_str \<noteq> [] then [unit_str] else [])
      in case map_of d ''item'' of
           None \<Rightarrow> Inl KeyError
         | Some (YStr item) \<Rightarrow> Inr (py_join '' '' (parts @ [item]))
         | Some _ \<Rightarrow> Inl TypeError)"

text \<open>\<^verbatim>\<open>ing.get\<close> exists on a mapping only: any other value raises \<^verbatim>\<open>AttributeError\<close> at
  the first line.\<close>

fun format_ingredient :: "yaml \<Rightarrow> exn + string" where
  "format_ingredient (YDict d) =
     (case ingredient_base d of
        Inl e \<Rightarrow> Inl e
      | Inr line \<Rightarrow>
          (case ref_clause d of
             Inl e \<Rightarrow> Inl e
           | Inr see \<Rightarrow>
               Inr (line @ alt_clause d @ optional_clause d @ brand_clause d @ see
                    @ garnish_clause d)))"
| "format_ingredient _ = Inl AttributeError"

text \<open>The arrow U+2192, the bullet U+2022 and the triangle U+25B8, in UTF-8.\<close>

definition arrow :: string where
  "arrow = [CHR 0xE2, CHR 0x86, CHR 0x92]"

definition bullet :: string where
  "bullet = [CHR 0xE2, CHR 0x80, CHR 0xA2]"

definition triangle :: string where
  "triangle = [CHR 0xE2, CHR 0x96, CHR 0xB8]"

text \<open>\<^verbatim>\<open>sub.get("replaces") or sub.get("for", "")\<close>: the first operand when it is truthy, the
  second otherwise.\<close>

definition substitution_target :: "(string \<times> yaml) list \<Rightarrow> yaml" where
  "substitution_target d =
     (if truthy (dict_get d ''replaces'' YNull) then dict_get d ''replaces'' YNull
      else dict_get d ''for'' (YStr []))"

fun format_substitution :: "yaml \<Rightarrow> exn + string" where
  "format_substitution sub =
     (case format_ingredient sub of
        Inl e \<Rightarrow> Inl e
      | Inr line \<Rightarrow>
          (case sub of
             YDict d \<Rightarrow>
               (let target = substitution_target d
                in if truthy target
                   then Inr (line @ ''  '' @ arrow @ '' replaces '' @ py_str target)
                   else Inr line)
           | _ \<Rightarrow> Inl AttributeError))"

section \<open>Operations on loaded values\<close>

text \<open>What the interpreter does for the operations the renderer applies to a loaded value
  of any shape: \<^verbatim>\<open>k in v\<close>, \<^verbatim>\<open>v[k]\<close> and \<^verbatim>\<open>v.get(k, dflt)\<close> with a string key, and
  \<^verbatim>\<open>for x in v\<close>.\<close>

fun contains_str :: "string \<Rightarrow> string \<Rightarrow> bool" where
  "contains_str k [] = (k = [])"
| "contains_str k (c # cs) = (take (length k) (c # cs) = k \<or> contains_str k cs)"

fun py_contains :: "string \<Rightarrow> yaml \<Rightarrow> exn + bool" where
  "py_contains k (YDict d) = Inr (has_key d k)"
| "py_contains k (YList xs) = Inr (YStr k \<in> set xs)"
| "py_contains k (YStr s) = Inr (contains_str k s)"
| "py_contains k _ = Inl TypeError"

fun py_getitem :: "yaml \<Rightarrow> string \<Rightarrow> exn + yaml" where
  "py_getitem (YDict d) k = (case map_of d k of None \<Rightarrow> Inl KeyError | Some v \<Rightarrow> Inr v)"
| "py_getitem _ k = Inl TypeError"

fun py_get :: "yaml \<Rightarrow> string \<Rightarrow> yaml \<Rightarrow> exn + yaml" where
  "py_get (YDict d) k dflt = Inr (dict_get d k dflt)"
| "py_get _ k dflt = Inl AttributeError"

fun py_iter :: "yaml \<Rightarrow> exn + yaml list" where
  "py_iter (YList xs) = Inr xs"
| "py_iter (YDict d) = Inr (map (\<lambda>kv. YStr (fst kv)) d)"
| "py_iter (YStr s) = Inr (map (\<lambda>c. YStr [c]) s)"
| "py_iter _ = Inl TypeError"

text \<open>\<^verbatim>\<open>label += text\<close> with a string on the right: concatenation on a string, extension by
  the characters on a list, \<^verbatim>\<open>TypeError\<close> otherwise.\<close>

fun py_iadd_str :: "yaml \<Rightarrow> string \<Rightarrow> exn + yaml" where
  "py_iadd_str (YStr s) t = Inr (YStr (s @ t))"
| "py_iadd_str (YList xs) t = Inr (YList (xs @ map (\<lambda>c. YStr [c]) t))"
| "py_iadd_str _ t = Inl TypeError"

section \<open>The page-layout library\<close>

text \<open>
  \<^verbatim>\<open>RecipePDF\<close> extends the class \<^verbatim>\<open>FPDF\<close> of a third-party library. The renderer's
  effect on it is the sequence of library calls it makes. The library is a parameter:
  where the cursor stands after a sequence of calls (\<^verbatim>\<open>get_y\<close>), and whether a call
  raises after it. The \<^verbatim>\<open>header\<close> and \<^verbatim>\<open>footer\<close> callbacks are run by the library
  during a page break; their calls are part of the library's behaviour, not of the log.
  All \<^verbatim>\<open>cell\<close> and \<^verbatim>\<open>multi_cell\<close> calls of the renderer pass
  \<^verbatim>\<open>new_x="LMARGIN", new_y="NEXT"\<close>, which the constructors leave out.
\<close>

type_synonym rgb = "nat \<times> nat \<times> nat"

datatype call =
    SetAutoPageBreak bool real
  | AddFont string string string
  | AliasNbPages
  | AddPage
  | Ln real
  | SetFont string string real
  | SetTextColor rgb
  | SetDrawColor rgb
  | SetLineWidth real
  | SetX real
  | Line real real real real
  | Cell real real yaml "yaml option"
  | MultiCell real real yaml
  | Output string

record fpdf_lib =
  get_y :: "call list \<Rightarrow> real"
  raises :: "call list \<Rightarrow> call \<Rightarrow> bool"

record RecipePDF =
  font_name :: string
  calls :: "call list"

type_synonym action = "RecipePDF \<Rightarrow> exn + RecipePDF"

definition fpdf :: "fpdf_lib \<Rightarrow> call \<Rightarrow> action" where
  "fpdf L c p = (if raises L (calls p) c then Inl FPDFException
                 else Inr (p\<lparr>calls := calls p @ [c]\<rparr>))"

text \<open>A block of statements: the first exception ends it.\<close>

fun do_all :: "action list \<Rightarrow> action" where
  "do_all [] p = Inr p"
| "do_all (a # as) p = (case a p of Inl e \<Rightarrow> Inl e | Inr p' \<Rightarrow> do_all as p')"

declare do_all.simps [simp del]

definition for_each :: "('a \<Rightarrow> action) \<Rightarrow> 'a list \<Rightarrow> action" where
  "for_each f xs = do_all (map f xs)"

definition run_if :: "bool \<Rightarrow> action \<Rightarrow> action" where
  "run_if b a p = (if b then a p else Inr p)"

text \<open>A statement that first evaluates an expression, which may raise.\<close>

definition with_value :: "exn + 'a \<Rightarrow> ('a \<Rightarrow> action) \<Rightarrow> action" where
  "with_value m f p = (case m of Inl e \<Rightarrow> Inl e | Inr x \<Rightarrow> f x p)"

text \<open>\<^verbatim>\<open>if key in data: body(data[key])\<close>, and the same with a loop over the value.\<close>

definition if_present :: "string \<Rightarrow> yaml \<Rightarrow> action \<Rightarrow> action" where
  "if_present key data body = with_value (py_contains key data) (\<lambda>b. run_if b body)"

definition for_items :: "yaml \<Rightarrow> string \<Rightarrow> (yaml \<Rightarrow> action) \<Rightarrow> action" where
  "for_items data key f =
     with_value (py_getitem data key) (\<lambda>v. with_value (py_iter v) (for_each f))"

definition set_font :: "fpdf_lib \<Rightarrow> string \<Rightarrow> real \<Rightarrow> action" where
  "set_font L style sz p = fpdf L (SetFont (font_name p) style sz) p"

definition BROWN_DARK :: rgb where "BROWN_DARK = (62, 39, 35)"
definition BROWN_MED :: rgb where "BROWN_MED = (93, 64, 55)"
definition TEXT_COLOR :: rgb where "TEXT_COLOR = (33, 33, 33)"
definition GRAY_ACCENT :: rgb where "GRAY_ACCENT = (188, 170, 164)"
definition GRAY_TEXT :: rgb where "GRAY_TEXT = (97, 97, 97)"
definition LINK_COLOR :: rgb where "LINK_COLOR = (0, 0, 180)"

section \<open>The renderer\<close>

text \<open>\<^verbatim>\<open>RecipePDF.__init__\<close>: the automatic page break, then \<^verbatim>\<open>_setup_fonts\<close>. The search
  for the font files is the environment's: \<open>fonts\<close> holds the paths of the regular and
  the bold file in the first directory that has both, if any.\<close>

definition RecipePDF_init :: "fpdf_lib \<Rightarrow> (string \<times> string) option \<Rightarrow> exn + RecipePDF" where
  "RecipePDF_init L fonts =
     do_all
       [fpdf L (SetAutoPageBreak True 15),
        (case fonts of
           Some (regular, bold) \<Rightarrow>
             do_all [fpdf L (AddFont ''DejaVu'' [] regular),
                     fpdf L (AddFont ''DejaVu'' ''B'' bold),
                     (\<lambda>p. Inr (p\<lparr>font_name := ''DejaVu''\<rparr>))]
         | None \<Rightarrow> (\<lambda>p. Inr (p\<lparr>font_name := ''Helvetica''\<rparr>)))]
       \<lparr>font_name = [], calls = []\<rparr>"

definition draw_rule :: "fpdf_lib \<Rightarrow> action" where
  "draw_rule L p = fpdf L (Line 20 (get_y L (calls p)) 190 (get_y L (calls p))) p"

definition section_header :: "fpdf_lib \<Rightarrow> string \<Rightarrow> action" where
  "section_header L title =
     do_all
       [(\<lambda>p. run_if (get_y L (calls p) > 250) (fpdf L AddPage) p),
        fpdf L (Ln 4),
        set_font L ''B'' 13,
        fpdf L (SetTextColor BROWN_MED),
        fpdf L (Cell 0 8 (YStr title) None),
        fpdf L (SetDrawColor GRAY_ACCENT),
        draw_rule L,
        fpdf L (Ln 3)]"

definition bullet_line :: "fpdf_lib \<Rightarrow> yaml \<Rightarrow> real \<Rightarrow> action" where
  "bullet_line L text indent =
     do_all
       [set_font L [] 10,
        fpdf L (SetTextColor TEXT_COLOR),
        fpdf L (SetX (22 + indent)),
        fpdf L (MultiCell (166 - indent) 5 (YStr (bullet @ ''  '' @ py_str text))),
        fpdf L (Ln 1)]"

definition numbered_line :: "fpdf_lib \<Rightarrow> nat \<Rightarrow> yaml \<Rightarrow> real \<Rightarrow> action" where
  "numbered_line L number text indent =
     (let prefix = str_nat number @ ''.  ''
      in do_all
           [set_font L [] 10,
            fpdf L (SetTextColor TEXT_COLOR),
            fpdf L (SetX (22 + indent)),
            fpdf L (MultiCell (166 - indent) 5 (YStr (prefix @ py_str text))),
            fpdf L (Ln (3 / 2))])"

text \<open>Expressions that may raise, evaluated one after the other.\<close>

definition and_then :: "exn + 'a \<Rightarrow> ('a \<Rightarrow> exn + 'b) \<Rightarrow> exn + 'b" where
  "and_then m f = (case m of Inl e \<Rightarrow> Inl e | Inr x \<Rightarrow> f x)"

fun gather :: "(exn + 'a list) list \<Rightarrow> exn + 'a list" where
  "gather [] = Inr []"
| "gather (m # ms) = and_then m (\<lambda>xs. and_then (gather ms) (\<lambda>ys. Inr (xs @ ys)))"

text \<open>\<^verbatim>\<open>if key in data: parts.append(f"{label}: {data[key]}")\<close>.\<close>

definition labelled :: "string \<Rightarrow> string \<Rightarrow> yaml \<Rightarrow> exn + string list" where
  "labelled label key data =
     and_then (py_contains key data) (\<lambda>b.
       if b then and_then (py_getitem data key) (\<lambda>v. Inr [label @ '': '' @ py_str v])
       else Inr [])"

definition timed :: "string \<Rightarrow> string \<Rightarrow> yaml \<Rightarrow> exn + string list" where
  "timed label key data =
     and_then (py_contains key data) (\<lambda>b.
       if b then and_then (py_getitem data key) (\<lambda>v.
                 and_then (format_time v) (\<lambda>t. Inr [label @ '': '' @ t]))
       else Inr [])"

text \<open>\<^verbatim>\<open>y = str(data["yield"])\<close>, extended by the unit when \<^verbatim>\<open>yield_unit\<close> is present.\<close>

definition yield_text :: "yaml \<Rightarrow> exn + string" where
  "yield_text data =
     and_then (py_getitem data ''yield'') (\<lambda>y.
     and_then (py_contains ''yield_unit'' data) (\<lambda>b.
       if b then and_then (py_getitem data ''yield_unit'') (\<lambda>u. Inr (py_str y @ '' '' @ py_str u))
       else Inr (py_str y)))"

definition yield_part :: "yaml \<Rightarrow> exn + string list" where
  "yield_part data =
     and_then (py_contains ''yield'' data) (\<lambda>b.
       if b then and_then (yield_text data) (\<lambda>y. Inr [''Yield: '' @ y]) else Inr [])"

definition meta_parts :: "yaml \<Rightarrow> exn + string list" where
  "meta_parts data =
     gather [labelled ''Region'' ''region'' data,
             labelled ''Ethnicity'' ''ethnicity'' data,
             labelled ''Restaurant'' ''restaurant'' data,
             labelled ''Category'' ''category'' data]"

definition time_parts :: "yaml \<Rightarrow> exn + string list" where
  "time_parts data =
     gather [timed ''Prep'' ''prep_time'' data,
             timed ''Cook'' ''cook_time'' data,
             yield_part data,
             labelled ''Method'' ''method'' data]"

definition info_line :: "fpdf_lib \<Rightarrow> string list \<Rightarrow> action" where
  "info_line L parts =
     run_if (parts \<noteq> [])
       (do_all [set_font L [] 10,
                fpdf L (SetTextColor GRAY_TEXT),
                fpdf L (Cell 0 6 (YStr (py_join '' | '' parts)) None),
                fpdf L (Ln 2)])"

definition source_link :: "fpdf_lib \<Rightarrow> yaml \<Rightarrow> string \<Rightarrow> action" where
  "source_link L data key =
     with_value (py_getitem data ''source'') (\<lambda>src.
     with_value (py_contains key src) (\<lambda>b.
       run_if b
         (with_value (py_getitem src key) (\<lambda>url.
            do_all [fpdf L (Cell 0 5 url (Some url)), fpdf L (Ln 1)]))))"

definition render_header :: "fpdf_lib \<Rightarrow> yaml \<Rightarrow> action" where
  "render_header L data =
     do_all
       [set_font L ''B'' 24,
        fpdf L (SetTextColor BROWN_DARK),
        with_value (py_getitem data ''name'') (\<lambda>name. fpdf L (MultiCell 0 12 name)),
        fpdf L (SetDrawColor GRAY_ACCENT),
        fpdf L (SetLineWidth (1 / 2)),
        draw_rule L,
        fpdf L (SetLineWidth (2 / 10)),
        fpdf L (Ln 4),
        with_value (meta_parts data) (info_line L),
        with_value (time_parts data) (info_line L),
        if_present ''source'' data
          (do_all [set_font L [] 8,
                   fpdf L (SetTextColor LINK_COLOR),
                   for_each (source_link L data) [''url'', ''url2'']]),
        fpdf L (Ln 4)]"

definition render_ingredients :: "fpdf_lib \<Rightarrow> yaml \<Rightarrow> real \<Rightarrow> action" where
  "render_ingredients L ingredients indent =
     with_value (py_iter ingredients)
       (for_each (\<lambda>ing. with_value (format_ingredient ing) (\<lambda>line. bullet_line L (YStr line) indent)))"

text \<open>Lines 224 to 227: the loop over \<^verbatim>\<open>step.items()\<close> rebinds \<^verbatim>\<open>step\<close> at every pair.\<close>

fun step_text :: "yaml \<Rightarrow> yaml" where
  "step_text (YDict kvs) =
     foldl (\<lambda>step kv. YStr (fst kv @ '': '' @ py_str (snd kv))) (YDict kvs) kvs"
| "step_text step = step"

definition render_steps :: "fpdf_lib \<Rightarrow> yaml \<Rightarrow> real \<Rightarrow> action" where
  "render_steps L steps indent =
     with_value (py_iter steps) (\<lambda>xs.
       for_each (\<lambda>(i, step). numbered_line L i (step_text step) indent) (enumerate 1 xs))"

definition render_substitutions :: "fpdf_lib \<Rightarrow> yaml \<Rightarrow> real \<Rightarrow> action" where
  "render_substitutions L subs indent =
     with_value (py_iter subs)
       (for_each (\<lambda>sub. with_value (format_substitution sub) (\<lambda>line. bullet_line L (YStr line) indent)))"

definition component_label :: "yaml \<Rightarrow> exn + yaml" where
  "component_label component =
     and_then (py_getitem component ''name'') (\<lambda>label.
     and_then (py_contains ''yield'' component) (\<lambda>b.
       if b then and_then (yield_text component) (\<lambda>y. py_iadd_str label (''  (yields '' @ y @ '')''))
       else Inr label))"

definition sub_label :: "fpdf_lib \<Rightarrow> string \<Rightarrow> action" where
  "sub_label L title =
     do_all [set_font L [] 9,
             fpdf L (SetTextColor GRAY_TEXT),
             fpdf L (SetX 26),
             fpdf L (Cell 0 5 (YStr title) None),
             fpdf L (Ln 1)]"

definition is_list :: "yaml \<Rightarrow> bool" where
  "is_list v = (case v of YList xs \<Rightarrow> True | _ \<Rightarrow> False)"

definition render_component :: "fpdf_lib \<Rightarrow> yaml \<Rightarrow> action" where
  "render_component L component =
     do_all
       [set_font L ''B'' 12,
        fpdf L (SetTextColor BROWN_MED),
        with_value (component_label component) (\<lambda>label.
          do_all [fpdf L (SetX 22),
                  fpdf L (Cell 0 7 (YStr (triangle @ '' '' @ py_str label)) None),
                  fpdf L (Ln 2)]),
        if_present ''ingredients'' component
          (do_all [sub_label L ''Ingredients:'',
                   with_value (py_getitem component ''ingredients'') (\<lambda>v. render_ingredients L v 10)]),
        if_present ''steps'' component
          (do_all [sub_label L ''Steps:'',
                   with_value (py_getitem component ''steps'') (\<lambda>v. render_steps L v 10)]),
        if_present ''substitutions'' component
          (do_all [sub_label L ''Substitutions:'',
                   with_value (py_getitem component ''substitutions'') (\<lambda>v. render_substitutions L v 10)]),
        if_present ''optional'' component
          (with_value (py_getitem component ''optional'') (\<lambda>v.
             run_if (is_list v)
               (do_all [sub_label L ''Optional:'', render_ingredients L v 10]))),
        fpdf L (Ln 2)]"

definition render_optional_section :: "fpdf_lib \<Rightarrow> yaml \<Rightarrow> action" where
  "render_optional_section L data =
     with_value (py_get data ''optional'' YNull) (\<lambda>opt.
       run_if (truthy opt)
         (do_all
            [section_header L ''Optional'',
             (case opt of
                YList xs \<Rightarrow> render_ingredients L opt 0
              | YDict d \<Rightarrow>
                  do_all [if_present ''components'' opt
                            (for_items opt ''components'' (render_component L)),
                          if_present ''ingredients'' opt
                            (with_value (py_getitem opt ''ingredients'')
                               (\<lambda>v. render_ingredients L v 0))]
              | _ \<Rightarrow> Inr)]))"

definition render_recipe :: "fpdf_lib \<Rightarrow> yaml \<Rightarrow> action" where
  "render_recipe L data =
     do_all
       [fpdf L AliasNbPages,
        fpdf L AddPage,
        render_header L data,
        if_present ''components'' data
          (do_all [section_header L ''Components'',
                   for_items data ''components'' (render_component L)]),
        if_present ''ingredients'' data
          (do_all [section_header L ''Ingredients'',
                   with_value (py_getitem data ''ingredients'') (\<lambda>v. render_ingredients L v 0)]),
        render_optional_section L data,
        if_present ''steps'' data
          (do_all [section_header L ''Steps'',
                   with_value (py_getitem data ''steps'') (\<lambda>v. render_steps L v 0)]),
        if_present ''steps_alt'' data
          (do_all [section_header L ''Alternative Steps'',
                   with_value (py_getitem data ''steps_alt'') (\<lambda>v. render_steps L v 0)]),
        if_present ''substitutions'' data
          (do_all [section_header L ''Substitutions'',
                   with_value (py_getitem data ''substitutions'')
                     (\<lambda>v. render_substitutions L v 0)]),
        if_present ''garnishes'' data
          (do_all [section_header L ''Garnishes'',
                   for_items data ''garnishes''
                     (\<lambda>g. with_value (py_getitem g ''item'') (\<lambda>t. bullet_line L t 0))]),
        if_present ''notes'' data
          (do_all [section_header L ''Notes'',
                   for_items data ''notes'' (\<lambda>note. bullet_line L note 0)])]"

section \<open>The batch driver\<close>

text \<open>
  One discovered input file, with what the environment does for it: whether creating the
  output directory raises, what opening and parsing the file gives, and what the font
  search finds when the renderer is constructed. Console output is left out.
\<close>

record recipe_file =
  rel_path :: string
  mkdir_raises :: bool
  loaded :: "exn + yaml"
  fonts :: "(string \<times> string) option"

record tally =
  success_count :: nat
  error_count :: nat
  written :: "(string \<times> call list) list"

text \<open>\<^verbatim>\<open>rel_path.with_suffix(".pdf")\<close>: the last component with its suffix replaced;
  \<^verbatim>\<open>ValueError\<close> on a path with no name.\<close>

definition with_suffix :: "string \<Rightarrow> string \<Rightarrow> exn + string" where
  "with_suffix p sfx =
     (case path_parts p of
        [] \<Rightarrow> Inl ValueError
      | c # cs \<Rightarrow> Inr (py_join ''/'' (butlast (c # cs) @ [name_stem (last (c # cs)) @ sfx])))"

text \<open>The body of the \<^verbatim>\<open>try\<close> block (lines 369 to 381): \<open>None\<close> is the \<^verbatim>\<open>SKIP\<close> branch,
  \<open>Some\<close> the document: the calls made on the renderer up to its \<^verbatim>\<open>output\<close>, which
  succeeded.\<close>

definition try_file :: "fpdf_lib \<Rightarrow> recipe_file \<Rightarrow> string \<Rightarrow> exn + call list option" where
  "try_file L f output_path =
     and_then (loaded f) (\<lambda>data.
       if \<not> truthy data then Inr None
       else and_then (py_contains ''name'' data) (\<lambda>named.
         if \<not> named then Inr None
         else and_then (RecipePDF_init L (fonts f)) (\<lambda>pdf.
              and_then (render_recipe L data pdf) (\<lambda>pdf.
              and_then (fpdf L (Output output_path) pdf) (\<lambda>done.
                Inr (Some (calls pdf)))))))"

text \<open>Lines 364 and 365: the output path mirrors the relative path under \<^verbatim>\<open>PDF\<close>, with
  the extension changed.\<close>

definition output_path_of :: "recipe_file \<Rightarrow> exn + string" where
  "output_path_of f = and_then (with_suffix (rel_path f) ''.pdf'') (\<lambda>out. Inr (''PDF/'' @ out))"

text \<open>One round of the loop (lines 364 to 385). Lines 364 to 366 stand before the
  \<^verbatim>\<open>try\<close>: an exception there leaves \<^verbatim>\<open>main\<close>.\<close>

definition process_file :: "fpdf_lib \<Rightarrow> tally \<Rightarrow> recipe_file \<Rightarrow> exn + tally" where
  "process_file L t f =
     and_then (output_path_of f) (\<lambda>output_path.
       if mkdir_raises f then Inl OSError
       else Inr (case try_file L f output_path of
                   Inl e \<Rightarrow> t\<lparr>error_count := error_count t + 1\<rparr>
                 | Inr None \<Rightarrow> t\<lparr>error_count := error_count t + 1\<rparr>
                 | Inr (Some doc) \<Rightarrow>
                     t\<lparr>success_count := success_count t + 1,
                       written := written t @ [(output_path, doc)]\<rparr>))"

fun main_loop :: "fpdf_lib \<Rightarrow> recipe_file list \<Rightarrow> tally \<Rightarrow> exn + tally" where
  "main_loop L [] t = Inr t"
| "main_loop L (f # fs) t =
     (case process_file L t f of Inl e \<Rightarrow> Inl e | Inr t' \<Rightarrow> main_loop L fs t')"

definition no_files :: tally where
  "no_files = \<lparr>success_count = 0, error_count = 0, written = []\<rparr>"

text \<open>\<^verbatim>\<open>main\<close> returns the exit code; the tally stands for the files it wrote and the
  counts of its summary line.\<close>

definition main :: "fpdf_lib \<Rightarrow> recipe_file list \<Rightarrow> exn + (int \<times> tally)" where
  "main L recipe_files =
     (if recipe_files = [] then Inr (1, no_files)
      else and_then (main_loop L recipe_files no_files) (\<lambda>t.
             Inr (if error_count t > 0 then 1 else 0, t)))"

text \<open>\<^verbatim>\<open>sys.exit(main())\<close>: an exception that leaves \<^verbatim>\<open>main\<close> ends the process with
  status 1.\<close>

definition exit_status :: "exn + (int \<times> tally) \<Rightarrow> int" where
  "exit_status r = (case r of Inl e \<Rightarrow> 1 | Inr (code, t) \<Rightarrow> code)"

section \<open>What a run of the renderer shows\<close>

text \<open>
  The renderer's result is read off the calls it made. A title is the only
  \<^verbatim>\<open>multi_cell\<close> of height 12 (line 160), a section header the only \<^verbatim>\<open>cell\<close> of height 8
  (line 133); bullet and numbered lines are the \<^verbatim>\<open>multi_cell\<close>s of height 5.
\<close>

fun heading :: "call \<Rightarrow> yaml list" where
  "heading (MultiCell w h t) = (if h = 12 then [t] else [])"
| "heading (Cell w h t l) = (if h = 8 then [t] else [])"
| "heading c = []"

definition headings :: "call list \<Rightarrow> yaml list" where
  "headings cs = concat (map heading cs)"

fun wrapped :: "call \<Rightarrow> yaml list" where
  "wrapped (MultiCell w h t) = [t]"
| "wrapped c = []"

definition wrapped_texts :: "call list \<Rightarrow> yaml list" where
  "wrapped_texts cs = concat (map wrapped cs)"

text \<open>An action that, whenever it returns, has added calls whose projection is \<open>ts\<close>.\<close>

definition emits :: "(call \<Rightarrow> 'b list) \<Rightarrow> action \<Rightarrow> 'b list \<Rightarrow> bool" where
  "emits proj a ts \<longleftrightarrow>
     (\<forall>p p'. a p = Inr p' \<longrightarrow>
        concat (map proj (calls p')) = concat (map proj (calls p)) @ ts)"

text \<open>A library none of whose calls raises, and an action that always returns.\<close>

definition never_raises :: "fpdf_lib \<Rightarrow> bool" where
  "never_raises L \<longleftrightarrow> (\<forall>h c. \<not> raises L h c)"

definition succeeds :: "action \<Rightarrow> bool" where
  "succeeds a \<longleftrightarrow> (\<forall>p. \<exists>p'. a p = Inr p')"

text \<open>A library to run examples against: no call raises, and every call moves the
  cursor down by five units.\<close>

definition sample_lib :: fpdf_lib where
  "sample_lib = \<lparr>get_y = (\<lambda>h. 5 * real (length h)), raises = (\<lambda>h c. False)\<rparr>"

definition fresh_pdf :: RecipePDF where
  "fresh_pdf = \<lparr>font_name = ''Helvetica'', calls = [SetAutoPageBreak True 15]\<rparr>"

text \<open>The title and section headers a run of \<^verbatim>\<open>render_recipe\<close> adds, when it returns.\<close>

definition rendered_headings :: "fpdf_lib \<Rightarrow> yaml \<Rightarrow> RecipePDF \<Rightarrow> exn + yaml list" where
  "rendered_headings L data p =
     (case render_recipe L data p of
        Inl e \<Rightarrow> Inl e
      | Inr p' \<Rightarrow> Inr (drop (length (headings (calls p))) (headings (calls p'))))"

text \<open>The document one file contributes to a batch: none when it is skipped or fails.\<close>

definition file_docs :: "fpdf_lib \<Rightarrow> recipe_file \<Rightarrow> (string \<times> call list) list" where
  "file_docs L f =
     (case output_path_of f of
        Inl e \<Rightarrow> []
      | Inr output_path \<Rightarrow>
          (case try_file L f output_path of
             Inr (Some doc) \<Rightarrow> [(output_path, doc)]
           | _ \<Rightarrow> []))"

section \<open>Properties of the field formatters\<close>

lemma py_int_error: "py_int s = Inl e \<Longrightarrow> e = ValueError"
  by (auto simp: py_int_def Let_def split: option.splits prod.splits)

lemma split_on_nonempty: "split_on d s \<noteq> []"
  by (induction s) (auto split: list.splits)

text \<open>
  Claim C3. The duration formatter never raises. When the text of its input has at least
  two colon-separated parts and the first two parse as integers \<open>h\<close> and \<open>m\<close>, it returns
  \<^verbatim>\<open>"{h}h {m}min"\<close> if \<open>h > 0\<close> and \<^verbatim>\<open>"{m} min"\<close> otherwise; in every other case it returns
  the text of the input unchanged.
\<close>

theorem format_time_result:
  "format_time v =
     Inr (case split_on CHR '':'' (py_str v) of
            p0 # p1 # rest \<Rightarrow>
              (case (py_int p0, py_int p1) of
                 (Inr h, Inr m) \<Rightarrow>
                   if h > 0 then str_int h @ ''h '' @ str_int m @ ''min''
                   else str_int m @ '' min''
               | _ \<Rightarrow> py_str v)
          | _ \<Rightarrow> py_str v)"
proof (cases "split_on CHR '':'' (py_str v)")
  case Nil
  then show ?thesis using split_on_nonempty by blast
next
  case outer: (Cons p0 ps)
  show ?thesis
  proof (cases ps)
    case Nil
    with outer show ?thesis
      by (auto simp: format_time_def format_time_try_def py_index_def
               split: sum.splits dest: py_int_error)
  next
    case (Cons p1 rest)
    with outer show ?thesis
      by (auto simp: format_time_def format_time_try_def py_index_def
               split: sum.splits dest: py_int_error)
  qed
qed

theorem format_time_examples:
  "format_time (YStr ''00:30:00'') = Inr ''30 min'' \<and>
   format_time (YStr ''01:15:00'') = Inr ''1h 15min'' \<and>
   format_time (YStr ''half an hour'') = Inr ''half an hour'' \<and>
   format_time (YStr ''1:xx'') = Inr ''1:xx''"
  using format_time_result [of "YStr ''00:30:00''"] format_time_result [of "YStr ''01:15:00''"]
    format_time_result [of "YStr ''half an hour''"] format_time_result [of "YStr ''1:xx''"]
  by (simp add: py_int_def int_strip_def int_isspace_def parse_digits_def digit_val_def
      str_int_def str_nat.simps digit_char_def)

lemma alt_clause_map_of:
  "alt_clause d =
     (case map_of d ''amount_alt'' of
        None \<Rightarrow> []
      | Some a \<Rightarrow>
          (case map_of d ''unit_alt'' of
             None \<Rightarrow> ''  ('' @ py_str a @ '')''
           | Some u \<Rightarrow> ''  ('' @ py_str a @ '' '' @ py_str u @ '')''))"
  by (cases "map_of d ''amount_alt''"; cases "map_of d ''unit_alt''")
     (simp_all add: alt_clause_def has_key_def dict_get_def)

lemma optional_clause_map_of:
  "optional_clause d =
     (case map_of d ''optional'' of
        None \<Rightarrow> []
      | Some v \<Rightarrow> if truthy v then ''  [optional]'' else [])"
  by (cases "map_of d ''optional''") (simp_all add: optional_clause_def dict_get_def)

lemma brand_clause_map_of:
  "brand_clause d =
     (case map_of d ''brand'' of
        None \<Rightarrow> []
      | Some v \<Rightarrow> if truthy v then ''  [Brand: '' @ py_str v @ '']'' else [])"
  by (cases "map_of d ''brand''") (simp_all add: brand_clause_def dict_get_def)

lemma garnish_clause_map_of:
  "garnish_clause d =
     (case map_of d ''garnish'' of
        None \<Rightarrow> []
      | Some v \<Rightarrow> if truthy v then ''  [garnish]'' else [])"
  by (cases "map_of d ''garnish''") (simp_all add: garnish_clause_def dict_get_def)

lemma ref_clause_map_of:
  assumes "\<forall>v. map_of d ''ref'' = Some v \<and> truthy v \<longrightarrow> (\<exists>r. v = YStr r)"
  shows "ref_clause d =
     Inr (case map_of d ''ref'' of
            None \<Rightarrow> []
          | Some v \<Rightarrow>
              if truthy v
              then ''  (see: ''
                   @ py_title (replace_char CHR ''_'' CHR '' '' (path_stem (py_str v))) @ '')''
              else [])"
proof (cases "map_of d ''ref''")
  case None
  then show ?thesis by (simp add: ref_clause_def dict_get_def)
next
  case (Some v)
  show ?thesis
  proof (cases "truthy v")
    case False
    with Some show ?thesis by (simp add: ref_clause_def dict_get_def)
  next
    case True
    with Some assms obtain r where "v = YStr r" by blast
    with Some True show ?thesis by (simp add: ref_clause_def dict_get_def)
  qed
qed

lemma ingredient_base_map_of:
  assumes "map_of d ''item'' = Some (YStr item)"
  shows "ingredient_base d =
     Inr (py_join '' ''
            ((case map_of d ''amount'' of
                None \<Rightarrow> []
              | Some a \<Rightarrow> if py_strip (py_str a) = [] then [] else [py_strip (py_str a)])
             @ (case map_of d ''unit'' of
                  None \<Rightarrow> []
                | Some u \<Rightarrow> if py_strip (py_str u) = [] then [] else [py_strip (py_str u)])
             @ [item]))"
proof -
  have empty: "py_strip (py_str (YStr [])) = []"
    by (simp add: py_strip_def)
  have a: "(if py_strip (py_str (dict_get d ''amount'' (YStr []))) \<noteq> []
            then [py_strip (py_str (dict_get d ''amount'' (YStr [])))] else []) =
           (case map_of d ''amount'' of
              None \<Rightarrow> []
            | Some a \<Rightarrow> if py_strip (py_str a) = [] then [] else [py_strip (py_str a)])"
    by (cases "map_of d ''amount''") (simp_all add: dict_get_def empty del: py_str.simps)
  have u: "(if py_strip (py_str (dict_get d ''unit'' (YStr []))) \<noteq> []
            then [py_strip (py_str (dict_get d ''unit'' (YStr [])))] else []) =
           (case map_of d ''unit'' of
              None \<Rightarrow> []
            | Some a \<Rightarrow> if py_strip (py_str a) = [] then [] else [py_strip (py_str a)])"
    by (cases "map_of d ''unit''") (simp_all add: dict_get_def empty del: py_str.simps)
  show ?thesis
    unfolding ingredient_base_def Let_def a u using assms by simp
qed

text \<open>
  Claim C2, as amended. For an ingredient mapping whose \<^verbatim>\<open>item\<close> is a string (and whose
  \<^verbatim>\<open>ref\<close>, when truthy, is a string), the line is the trimmed amount (if not empty), the
  trimmed unit (if not empty) and the item, joined by single spaces, followed in this
  order by: the alt-quantity clause when \<^verbatim>\<open>amount_alt\<close> is present (with the unit when
  \<^verbatim>\<open>unit_alt\<close> is present too); \<^verbatim>\<open>"  [optional]"\<close> when \<^verbatim>\<open>optional\<close> is truthy;
  \<^verbatim>\<open>"  [Brand: {brand}]"\<close> when \<^verbatim>\<open>brand\<close> is truthy; \<^verbatim>\<open>"  (see: {name})"\<close> when \<^verbatim>\<open>ref\<close> is
  truthy (present and not empty), the name being the stem of the path with underscores
  turned into spaces and title-cased; and \<^verbatim>\<open>"  [garnish]"\<close> when \<^verbatim>\<open>garnish\<close> is truthy.
\<close>

theorem format_ingredient_line:
  assumes item: "map_of d ''item'' = Some (YStr item)"
    and ref: "\<forall>v. map_of d ''ref'' = Some v \<and> truthy v \<longrightarrow> (\<exists>r. v = YStr r)"
  shows "format_ingredient (YDict d) =
     Inr (py_join '' ''
            ((case map_of d ''amount'' of
                None \<Rightarrow> []
              | Some a \<Rightarrow> if py_strip (py_str a) = [] then [] else [py_strip (py_str a)])
             @ (case map_of d ''unit'' of
                  None \<Rightarrow> []
                | Some u \<Rightarrow> if py_strip (py_str u) = [] then [] else [py_strip (py_str u)])
             @ [item])
          @ (case map_of d ''amount_alt'' of
               None \<Rightarrow> []
             | Some a \<Rightarrow>
                 (case map_of d ''unit_alt'' of
                    None \<Rightarrow> ''  ('' @ py_str a @ '')''
                  | Some u \<Rightarrow> ''  ('' @ py_str a @ '' '' @ py_str u @ '')''))
          @ (case map_of d ''optional'' of
               None \<Rightarrow> []
             | Some v \<Rightarrow> if truthy v then ''  [optional]'' else [])
          @ (case map_of d ''brand'' of
               None \<Rightarrow> []
             | Some v \<Rightarrow> if truthy v then ''  [Brand: '' @ py_str v @ '']'' else [])
          @ (case map_of d ''ref'' of
               None \<Rightarrow> []
             | Some v \<Rightarrow>
                 if truthy v
                 then ''  (see: ''
                      @ py_title (replace_char CHR ''_'' CHR '' '' (path_stem (py_str v))) @ '')''
                 else [])
          @ (case map_of d ''garnish'' of
               None \<Rightarrow> []
             | Some v \<Rightarrow> if truthy v then ''  [garnish]'' else []))"
  by (simp only: format_ingredient.simps ingredient_base_map_of [OF item]
      ref_clause_map_of [OF ref] sum.case alt_clause_map_of optional_clause_map_of
      brand_clause_map_of garnish_clause_map_of)

theorem format_ingredient_examples:
  "format_ingredient
     (YDict [(''amount'', YStr ''2''), (''unit'', YStr ''cups''), (''item'', YStr ''flour'')])
     = Inr ''2 cups flour'' \<and>
   format_ingredient
     (YDict [(''amount'', YStr ''2''), (''unit'', YStr ''cups''), (''item'', YStr ''flour''),
             (''optional'', YBool True), (''ref'', YStr ''sauces/base_sauce.yaml'')])
     = Inr ''2 cups flour  [optional]  (see: Base Sauce)''"
proof -
  have name: "py_title (replace_char CHR ''_'' CHR '' '' (path_stem ''sauces/base_sauce.yaml''))
              = ''Base Sauce''"
    by code_simp
  have strip: "py_strip ''2'' = ''2''" "py_strip ''cups'' = ''cups''"
    by code_simp+
  show ?thesis
    using format_ingredient_line
            [of "[(''amount'', YStr ''2''), (''unit'', YStr ''cups''), (''item'', YStr ''flour'')]"
                "''flour''"]
          format_ingredient_line
            [of "[(''amount'', YStr ''2''), (''unit'', YStr ''cups''), (''item'', YStr ''flour''),
                  (''optional'', YBool True), (''ref'', YStr ''sauces/base_sauce.yaml'')]"
                "''flour''"]
    by (simp add: name strip)
qed

text \<open>The claim as stated appends the clause whenever \<^verbatim>\<open>ref\<close> is present; an empty
  \<^verbatim>\<open>ref\<close> is present and the code appends nothing.\<close>

theorem format_ingredient_empty_ref:
  "has_key [(''item'', YStr ''x''), (''ref'', YStr [])] ''ref'' \<and>
   format_ingredient (YDict [(''item'', YStr ''x''), (''ref'', YStr [])]) = Inr ''x''"
  by code_simp

text \<open>
  Claim C4, as amended. The substitution line is the ingredient line of the same mapping
  followed by \<^verbatim>\<open>"  -> replaces {target}"\<close> (with the arrow U+2192) when the target is
  truthy, and by nothing otherwise; the target is the \<^verbatim>\<open>replaces\<close> field when that is
  present and truthy, and else the \<^verbatim>\<open>for\<close> field (the empty string when \<^verbatim>\<open>for\<close> is absent).
\<close>

theorem format_substitution_line:
  "format_substitution (YDict d) =
     (case format_ingredient (YDict d) of
        Inl e \<Rightarrow> Inl e
      | Inr line \<Rightarrow>
          Inr (line @
               (let for_field = (case map_of d ''for'' of None \<Rightarrow> YStr [] | Some v \<Rightarrow> v);
                    target = (case map_of d ''replaces'' of
                                None \<Rightarrow> for_field
                              | Some v \<Rightarrow> if truthy v then v else for_field)
                in if truthy target then ''  '' @ arrow @ '' replaces '' @ py_str target
                   else [])))"
  by (cases "map_of d ''replaces''"; cases "map_of d ''for''")
     (simp_all add: substitution_target_def dict_get_def Let_def split: sum.splits)

theorem format_substitution_examples:
  "format_substitution (YDict [(''item'', YStr ''oat milk''), (''replaces'', YStr ''whole milk'')])
     = Inr (''oat milk  '' @ arrow @ '' replaces whole milk'') \<and>
   format_substitution (YDict [(''item'', YStr ''oat milk''), (''for'', YStr ''cream''),
                               (''replaces'', YStr ''whole milk'')])
     = Inr (''oat milk  '' @ arrow @ '' replaces whole milk'') \<and>
   format_substitution (YDict [(''item'', YStr ''oat milk'')]) = Inr ''oat milk''"
proof -
  have line: "format_ingredient (YDict [(''item'', YStr ''oat milk''), (''replaces'', YStr ''whole milk'')])
                = Inr ''oat milk''"
       "format_ingredient (YDict [(''item'', YStr ''oat milk''), (''for'', YStr ''cream''),
                               (''replaces'', YStr ''whole milk'')]) = Inr ''oat milk''"
       "format_ingredient (YDict [(''item'', YStr ''oat milk'')]) = Inr ''oat milk''"
    by code_simp+
  show ?thesis
    using format_substitution_line [of "[(''item'', YStr ''oat milk''), (''replaces'', YStr ''whole milk'')]"]
          format_substitution_line [of "[(''item'', YStr ''oat milk''), (''for'', YStr ''cream''),
                               (''replaces'', YStr ''whole milk'')]"]
          format_substitution_line [of "[(''item'', YStr ''oat milk'')]"]
    by (simp add: line del: format_ingredient.simps format_substitution.simps)
qed

text \<open>The claim as stated lets \<^verbatim>\<open>replaces\<close> win whenever both fields are present; with an
  empty \<^verbatim>\<open>replaces\<close> the code takes \<^verbatim>\<open>for\<close>.\<close>

theorem format_substitution_empty_replaces:
  "format_substitution
     (YDict [(''item'', YStr ''oat milk''), (''replaces'', YStr []), (''for'', YStr ''whole milk'')])
   = Inr (''oat milk  '' @ arrow @ '' replaces whole milk'')"
  by code_simp

section \<open>Properties of the renderer\<close>

lemma emits_fpdf: "emits proj (fpdf L c) (proj c)"
  by (auto simp: emits_def fpdf_def split: if_splits)

lemma emits_nil: "emits proj (do_all []) []"
  by (simp add: emits_def do_all.simps)

lemma emits_cons:
  assumes "emits proj a ts" and "emits proj (do_all as) us"
  shows "emits proj (do_all (a # as)) (ts @ us)"
  using assms by (auto simp: emits_def do_all.simps split: sum.splits)

lemma emits_skip: "emits proj Inr []"
  by (simp add: emits_def)

lemma emits_weaken: "emits proj a ts \<Longrightarrow> ts = us \<Longrightarrow> emits proj a us"
  by simp

lemma emits_run_if: "emits proj a ts \<Longrightarrow> emits proj (run_if b a) (if b then ts else [])"
  by (auto simp: emits_def run_if_def)

lemma emits_with_value:
  "(\<And>x. m = Inr x \<Longrightarrow> emits proj (f x) ts) \<Longrightarrow> emits proj (with_value m f) ts"
  by (auto simp: emits_def with_value_def split: sum.splits)

lemma emits_for_each:
  "(\<And>x. x \<in> set xs \<Longrightarrow> emits proj (f x) (g x)) \<Longrightarrow>
   emits proj (for_each f xs) (concat (map g xs))"
proof (induction xs)
  case Nil
  then show ?case by (simp add: for_each_def emits_nil)
next
  case (Cons x xs)
  then have "emits proj (f x) (g x)" and "emits proj (do_all (map f xs)) (concat (map g xs))"
    by (simp_all add: for_each_def)
  then show ?case
    using emits_cons [of proj "f x" "g x" "map f xs" "concat (map g xs)"]
    by (simp add: for_each_def)
qed

lemma emits_if_present:
  "emits proj body ts \<Longrightarrow>
   emits proj (if_present key (YDict d) body) (if has_key d key then ts else [])"
  by (auto simp: emits_def if_present_def with_value_def run_if_def)

text \<open>Actions that add nothing a projection shows.\<close>

lemma quiet_fpdf: "proj c = [] \<Longrightarrow> emits proj (fpdf L c) []"
  using emits_fpdf [of proj L c] by simp

lemma quiet_do_all: "list_all (\<lambda>a. emits proj a []) as \<Longrightarrow> emits proj (do_all as) []"
proof (induction as)
  case Nil
  then show ?case by (simp add: emits_nil)
next
  case (Cons a as)
  then show ?case using emits_cons [of proj a "[]" as "[]"] by simp
qed

lemma concat_map_empty: "concat (map (\<lambda>x. []) xs) = []"
  by (induction xs) simp_all

lemma quiet_for_each: "(\<And>x. emits proj (f x) []) \<Longrightarrow> emits proj (for_each f xs) []"
  using emits_for_each [of xs proj f "\<lambda>x. []"] by (simp add: concat_map_empty)

lemma quiet_run_if: "emits proj a [] \<Longrightarrow> emits proj (run_if b a) []"
  using emits_run_if [of proj a "[]" b] by simp

lemma quiet_with_value: "(\<And>x. emits proj (f x) []) \<Longrightarrow> emits proj (with_value m f) []"
  by (simp add: emits_with_value)

lemma quiet_if_present: "emits proj body [] \<Longrightarrow> emits proj (if_present key data body) []"
  by (simp add: if_present_def quiet_with_value quiet_run_if)

lemma quiet_for_items: "(\<And>x. emits proj (f x) []) \<Longrightarrow> emits proj (for_items data key f) []"
  by (simp add: for_items_def quiet_with_value quiet_for_each)

lemma quiet_set_font:
  "(\<And>f. proj (SetFont f style sz) = []) \<Longrightarrow> emits proj (set_font L style sz) []"
  by (auto simp: emits_def set_font_def fpdf_def split: if_splits)

lemma quiet_draw_rule:
  "(\<And>a b c d. proj (Line a b c d) = []) \<Longrightarrow> emits proj (draw_rule L) []"
  by (auto simp: emits_def draw_rule_def fpdf_def split: if_splits)

lemmas quiet_rules =
  quiet_fpdf quiet_do_all quiet_for_each quiet_run_if quiet_with_value quiet_if_present
  quiet_for_items quiet_set_font quiet_draw_rule

lemma bullet_line_heading: "emits heading (bullet_line L t i) []"
  unfolding bullet_line_def by (simp add: quiet_rules)

lemma numbered_line_heading: "emits heading (numbered_line L n t i) []"
  unfolding numbered_line_def Let_def by (simp add: quiet_rules)

lemma sub_label_heading: "emits heading (sub_label L title) []"
  unfolding sub_label_def by (simp add: quiet_rules)

lemma info_line_heading: "emits heading (info_line L parts) []"
  unfolding info_line_def by (simp add: quiet_rules)

lemma source_link_heading: "emits heading (source_link L data key) []"
  unfolding source_link_def by (simp add: quiet_rules)

lemma render_ingredients_heading: "emits heading (render_ingredients L v i) []"
  unfolding render_ingredients_def by (simp add: quiet_rules bullet_line_heading)

lemma render_steps_heading: "emits heading (render_steps L v i) []"
  unfolding render_steps_def by (simp add: quiet_rules numbered_line_heading split_beta)

lemma render_substitutions_heading: "emits heading (render_substitutions L v i) []"
  unfolding render_substitutions_def by (simp add: quiet_rules bullet_line_heading)

lemma render_component_heading: "emits heading (render_component L c) []"
  unfolding render_component_def
  by (simp add: quiet_rules sub_label_heading render_ingredients_heading
      render_steps_heading render_substitutions_heading)

text \<open>Actions that always return when the library does not raise.\<close>

lemma succeeds_fpdf: "never_raises L \<Longrightarrow> succeeds (fpdf L c)"
  by (simp add: never_raises_def succeeds_def fpdf_def)

lemma succeeds_do_all: "list_all succeeds as \<Longrightarrow> succeeds (do_all as)"
proof (induction as)
  case Nil
  then show ?case by (simp add: succeeds_def do_all.simps)
next
  case (Cons a as)
  then have a: "succeeds a" and rest: "succeeds (do_all as)" by simp_all
  show ?case
    unfolding succeeds_def
  proof
    fix p
    from a obtain q where "a p = Inr q" unfolding succeeds_def by blast
    moreover from rest obtain r where "do_all as q = Inr r" unfolding succeeds_def by blast
    ultimately show "\<exists>p'. do_all (a # as) p = Inr p'" by (simp add: do_all.simps)
  qed
qed

lemma succeeds_for_each: "(\<And>x. succeeds (f x)) \<Longrightarrow> succeeds (for_each f xs)"
  by (simp add: for_each_def succeeds_do_all list_all_iff)

lemma succeeds_set_font: "never_raises L \<Longrightarrow> succeeds (set_font L style sz)"
  by (simp add: never_raises_def succeeds_def set_font_def fpdf_def)

lemma succeeds_draw_rule: "never_raises L \<Longrightarrow> succeeds (draw_rule L)"
  by (simp add: never_raises_def succeeds_def draw_rule_def fpdf_def)

lemma succeeds_numbered_line: "never_raises L \<Longrightarrow> succeeds (numbered_line L n t i)"
  unfolding numbered_line_def Let_def
  by (simp add: succeeds_do_all succeeds_fpdf succeeds_set_font)

lemma succeeds_section_header: "never_raises L \<Longrightarrow> succeeds (section_header L title)"
proof -
  assume L: "never_raises L"
  then have "succeeds (\<lambda>p. run_if (250 < get_y L (calls p)) (fpdf L AddPage) p)"
    by (simp add: succeeds_def run_if_def never_raises_def fpdf_def)
  with L show ?thesis
    unfolding section_header_def
    by (simp add: succeeds_do_all succeeds_fpdf succeeds_set_font succeeds_draw_rule)
qed

text \<open>The calls of one section header.\<close>

lemma section_header_calls:
  assumes "section_header L title p = Inr p'"
  shows "\<exists>y. calls p' =
           calls p @ (if get_y L (calls p) > 250 then [AddPage] else [])
           @ [Ln 4, SetFont (font_name p) ''B'' 13, SetTextColor BROWN_MED,
              Cell 0 8 (YStr title) None, SetDrawColor GRAY_ACCENT, Line 20 y 190 y, Ln 3]"
  using assms
  unfolding section_header_def do_all.simps run_if_def set_font_def draw_rule_def fpdf_def
  by (auto split: if_splits sum.splits)

lemma section_header_heading: "emits heading (section_header L title) [YStr title]"
  unfolding emits_def
proof (intro allI impI)
  fix p p'
  assume "section_header L title p = Inr p'"
  from section_header_calls [OF this] obtain y where
    "calls p' = calls p @ (if get_y L (calls p) > 250 then [AddPage] else [])
           @ [Ln 4, SetFont (font_name p) ''B'' 13, SetTextColor BROWN_MED,
              Cell 0 8 (YStr title) None, SetDrawColor GRAY_ACCENT, Line 20 y 190 y, Ln 3]"
    by blast
  then show "concat (map heading (calls p')) = concat (map heading (calls p)) @ [YStr title]"
    by simp
qed

text \<open>
  Claim C7. A section header that returns has made an explicit \<^verbatim>\<open>add_page\<close> call first
  exactly when the cursor stood past 250, and then the calls of the header itself, with no
  further page break; with a library that does not raise it always returns.
\<close>

theorem section_header_page_break:
  "(section_header L title p = Inr p' \<longrightarrow>
      (\<exists>y. calls p' =
             calls p @ (if get_y L (calls p) > 250 then [AddPage] else [])
             @ [Ln 4, SetFont (font_name p) ''B'' 13, SetTextColor BROWN_MED,
                Cell 0 8 (YStr title) None, SetDrawColor GRAY_ACCENT, Line 20 y 190 y, Ln 3]))
   \<and> (never_raises L \<longrightarrow> (\<exists>q. section_header L title p = Inr q))"
  using section_header_calls [of L title p p'] succeeds_section_header [of L title]
  by (auto simp: succeeds_def)

lemma never_raises_sample: "never_raises sample_lib"
  by (simp add: never_raises_def sample_lib_def)

theorem section_header_page_break_examples:
  "(\<exists>q. section_header sample_lib ''Steps'' fresh_pdf = Inr q \<and> calls q ! 1 = Ln 4
        \<and> AddPage \<notin> set (calls q))
   \<and> (\<exists>q. section_header sample_lib ''Steps'' (fresh_pdf\<lparr>calls := replicate 51 (Ln 5)\<rparr>) = Inr q
        \<and> calls q ! 51 = AddPage \<and> calls q ! 52 = Ln 4)"
proof -
  have high: "get_y sample_lib (calls fresh_pdf) = 5"
    and low: "get_y sample_lib (calls (fresh_pdf\<lparr>calls := replicate 51 (Ln 5)\<rparr>)) = 255"
    by (simp_all add: sample_lib_def fresh_pdf_def)
  from section_header_page_break [of sample_lib "''Steps''" fresh_pdf] never_raises_sample
  obtain q where q: "section_header sample_lib ''Steps'' fresh_pdf = Inr q" by blast
  with section_header_page_break [of sample_lib "''Steps''" fresh_pdf q] high
  have "calls q ! 1 = Ln 4 \<and> AddPage \<notin> set (calls q)"
    by (auto simp: fresh_pdf_def)
  with q have first: "\<exists>q. section_header sample_lib ''Steps'' fresh_pdf = Inr q
      \<and> calls q ! 1 = Ln 4 \<and> AddPage \<notin> set (calls q)"
    by blast
  from section_header_page_break
         [of sample_lib "''Steps''" "fresh_pdf\<lparr>calls := replicate 51 (Ln 5)\<rparr>"]
       never_raises_sample
  obtain r where r: "section_header sample_lib ''Steps''
                       (fresh_pdf\<lparr>calls := replicate 51 (Ln 5)\<rparr>) = Inr r"
    by blast
  with section_header_page_break
         [of sample_lib "''Steps''" "fresh_pdf\<lparr>calls := replicate 51 (Ln 5)\<rparr>" r] low
  have "calls r ! 51 = AddPage \<and> calls r ! 52 = Ln 4"
    by (auto simp: nth_append)
  with r first show ?thesis by blast
qed

lemma render_header_heading:
  "emits heading (render_header L (YDict d))
     (case map_of d ''name'' of None \<Rightarrow> [] | Some name \<Rightarrow> [name])"
proof -
  have title: "emits heading
      (with_value (py_getitem (YDict d) ''name'') (\<lambda>name. fpdf L (MultiCell 0 12 name)))
      (case map_of d ''name'' of None \<Rightarrow> [] | Some name \<Rightarrow> [name])"
    by (cases "map_of d ''name''")
       (auto simp: emits_def with_value_def fpdf_def split: if_splits)
  have rest: "emits heading
      (do_all
        [fpdf L (SetDrawColor GRAY_ACCENT),
         fpdf L (SetLineWidth (1 / 2)),
         draw_rule L,
         fpdf L (SetLineWidth (2 / 10)),
         fpdf L (Ln 4),
         with_value (meta_parts (YDict d)) (info_line L),
         with_value (time_parts (YDict d)) (info_line L),
         if_present ''source'' (YDict d)
           (do_all [set_font L [] 8,
                    fpdf L (SetTextColor LINK_COLOR),
                    for_each (source_link L (YDict d)) [''url'', ''url2'']]),
         fpdf L (Ln 4)]) []"
    by (simp add: quiet_rules info_line_heading source_link_heading)
  have "emits heading (render_header L (YDict d))
          ([] @ [] @ (case map_of d ''name'' of None \<Rightarrow> [] | Some name \<Rightarrow> [name]) @ [])"
    unfolding render_header_def
    by (intro emits_cons title rest quiet_set_font quiet_fpdf) simp_all
  then show ?thesis by simp
qed

lemma optional_section_heading:
  "emits heading (render_optional_section L (YDict d))
     (if truthy (dict_get d ''optional'' YNull) then [YStr ''Optional''] else [])"
proof -
  let ?opt = "dict_get d ''optional'' YNull"
  have content: "emits heading
      (do_all
        [case ?opt of
           YList xs \<Rightarrow> render_ingredients L ?opt 0
         | YDict d \<Rightarrow>
             do_all [if_present ''components'' ?opt
                       (for_items ?opt ''components'' (render_component L)),
                     if_present ''ingredients'' ?opt
                       (with_value (py_getitem ?opt ''ingredients'')
                          (\<lambda>v. render_ingredients L v 0))]
         | _ \<Rightarrow> Inr]) []"
    by (cases ?opt)
       (simp_all add: quiet_rules emits_skip render_ingredients_heading
          render_component_heading)
  have "emits heading
      (do_all
        [section_header L ''Optional'',
         case ?opt of
           YList xs \<Rightarrow> render_ingredients L ?opt 0
         | YDict d \<Rightarrow>
             do_all [if_present ''components'' ?opt
                       (for_items ?opt ''components'' (render_component L)),
                     if_present ''ingredients'' ?opt
                       (with_value (py_getitem ?opt ''ingredients'')
                          (\<lambda>v. render_ingredients L v 0))]
         | _ \<Rightarrow> Inr]) ([YStr ''Optional''] @ [])"
    by (rule emits_cons [OF section_header_heading content])
  then show ?thesis
    unfolding render_optional_section_def
    by (auto simp: emits_def with_value_def run_if_def)
qed

text \<open>
  Claim C9. When the \<^verbatim>\<open>optional\<close> field of a record is present but falsy, the optional
  section makes no call at all and returns the renderer unchanged. When the section
  returns, it has added the one section header \<^verbatim>\<open>Optional\<close> if the field is present and
  truthy, and no header otherwise.
\<close>

theorem optional_section_falsy:
  "(map_of d ''optional'' = Some v \<and> \<not> truthy v \<longrightarrow>
      render_optional_section L (YDict d) p = Inr p)
   \<and> (render_optional_section L (YDict d) p = Inr p' \<longrightarrow>
        headings (calls p') =
          headings (calls p)
          @ (case map_of d ''optional'' of
               None \<Rightarrow> []
             | Some v \<Rightarrow> if truthy v then [YStr ''Optional''] else []))"
proof
  show "map_of d ''optional'' = Some v \<and> \<not> truthy v \<longrightarrow>
      render_optional_section L (YDict d) p = Inr p"
    by (simp add: render_optional_section_def with_value_def run_if_def dict_get_def)
next
  have "(if truthy (dict_get d ''optional'' YNull) then [YStr ''Optional''] else []) =
        (case map_of d ''optional'' of
           None \<Rightarrow> []
         | Some v \<Rightarrow> if truthy v then [YStr ''Optional''] else [])"
    by (cases "map_of d ''optional''") (simp_all add: dict_get_def)
  with optional_section_heading [of L d]
  show "render_optional_section L (YDict d) p = Inr p' \<longrightarrow>
        headings (calls p') =
          headings (calls p)
          @ (case map_of d ''optional'' of
               None \<Rightarrow> []
             | Some v \<Rightarrow> if truthy v then [YStr ''Optional''] else [])"
    by (simp add: emits_def headings_def)
qed

theorem optional_section_falsy_examples:
  "render_optional_section sample_lib
     (YDict [(''name'', YStr ''Soup''), (''optional'', YList [])]) fresh_pdf = Inr fresh_pdf
   \<and> render_optional_section sample_lib
     (YDict [(''name'', YStr ''Soup''), (''optional'', YBool False)]) fresh_pdf = Inr fresh_pdf
   \<and> render_optional_section sample_lib
     (YDict [(''name'', YStr ''Soup''), (''optional'', YNull)]) fresh_pdf = Inr fresh_pdf
   \<and> render_optional_section sample_lib
     (YDict [(''name'', YStr ''Soup''), (''optional'', YDict [])]) fresh_pdf = Inr fresh_pdf"
proof -
  have a: "map_of [(''name'', YStr ''Soup''), (''optional'', YList [])] ''optional''
             = Some (YList []) \<and> \<not> truthy (YList [])"
    and b: "map_of [(''name'', YStr ''Soup''), (''optional'', YBool False)] ''optional''
             = Some (YBool False) \<and> \<not> truthy (YBool False)"
    and c: "map_of [(''name'', YStr ''Soup''), (''optional'', YNull)] ''optional''
             = Some YNull \<and> \<not> truthy YNull"
    and d: "map_of [(''name'', YStr ''Soup''), (''optional'', YDict [])] ''optional''
             = Some (YDict []) \<and> \<not> truthy (YDict [])"
    by simp_all
  note falsy = optional_section_falsy [THEN conjunct1, rule_format]
  from falsy [OF a] falsy [OF b] falsy [OF c] falsy [OF d] show ?thesis by blast
qed

lemma section_heading:
  assumes "emits heading body []"
  shows "emits heading (if_present key (YDict d) (do_all [section_header L title, body]))
           (if has_key d key then [YStr title] else [])"
proof -
  from assms have "emits heading (do_all [body]) []"
    by (simp add: quiet_do_all)
  from emits_cons [OF section_header_heading this]
  have "emits heading (do_all [section_header L title, body]) [YStr title]"
    by simp
  then show ?thesis by (rule emits_if_present)
qed

lemma render_recipe_heading:
  "emits heading (render_recipe L (YDict d))
     ((case map_of d ''name'' of None \<Rightarrow> [] | Some name \<Rightarrow> [name])
      @ (if has_key d ''components'' then [YStr ''Components''] else [])
      @ (if has_key d ''ingredients'' then [YStr ''Ingredients''] else [])
      @ (if truthy (dict_get d ''optional'' YNull) then [YStr ''Optional''] else [])
      @ (if has_key d ''steps'' then [YStr ''Steps''] else [])
      @ (if has_key d ''steps_alt'' then [YStr ''Alternative Steps''] else [])
      @ (if has_key d ''substitutions'' then [YStr ''Substitutions''] else [])
      @ (if has_key d ''garnishes'' then [YStr ''Garnishes''] else [])
      @ (if has_key d ''notes'' then [YStr ''Notes''] else []))"
proof -
  have "emits heading (render_recipe L (YDict d))
     ([] @ [] @ (case map_of d ''name'' of None \<Rightarrow> [] | Some name \<Rightarrow> [name])
      @ (if has_key d ''components'' then [YStr ''Components''] else [])
      @ (if has_key d ''ingredients'' then [YStr ''Ingredients''] else [])
      @ (if truthy (dict_get d ''optional'' YNull) then [YStr ''Optional''] else [])
      @ (if has_key d ''steps'' then [YStr ''Steps''] else [])
      @ (if has_key d ''steps_alt'' then [YStr ''Alternative Steps''] else [])
      @ (if has_key d ''substitutions'' then [YStr ''Substitutions''] else [])
      @ (if has_key d ''garnishes'' then [YStr ''Garnishes''] else [])
      @ (if has_key d ''notes'' then [YStr ''Notes''] else []) @ [])"
    unfolding render_recipe_def
    by (intro emits_cons emits_nil quiet_fpdf render_header_heading optional_section_heading
          section_heading quiet_for_items quiet_with_value render_component_heading
          render_ingredients_heading render_steps_heading render_substitutions_heading
          bullet_line_heading)
       simp_all
  then show ?thesis by simp
qed

text \<open>
  Claim C1, as amended. A run of the renderer on a record that returns has added the
  title and then the section headers in the fixed order Components, Ingredients,
  Optional, Steps, Alternative Steps, Substitutions, Garnishes, Notes: each section but
  Optional exactly when its field is present, the Optional section exactly when the
  \<^verbatim>\<open>optional\<close> field is present and truthy. The headers depend on the fields of the record
  only, not on their order in the file.
\<close>

theorem render_recipe_section_order:
  "(render_recipe L (YDict d) p = Inr p' \<longrightarrow>
      headings (calls p') =
        headings (calls p)
        @ (case map_of d ''name'' of None \<Rightarrow> [] | Some name \<Rightarrow> [name])
        @ (if has_key d ''components'' then [YStr ''Components''] else [])
        @ (if has_key d ''ingredients'' then [YStr ''Ingredients''] else [])
        @ (case map_of d ''optional'' of
             None \<Rightarrow> []
           | Some v \<Rightarrow> if truthy v then [YStr ''Optional''] else [])
        @ (if has_key d ''steps'' then [YStr ''Steps''] else [])
        @ (if has_key d ''steps_alt'' then [YStr ''Alternative Steps''] else [])
        @ (if has_key d ''substitutions'' then [YStr ''Substitutions''] else [])
        @ (if has_key d ''garnishes'' then [YStr ''Garnishes''] else [])
        @ (if has_key d ''notes'' then [YStr ''Notes''] else []))
   \<and> (map_of d = map_of d' \<and> render_recipe L (YDict d) p = Inr p'
        \<and> render_recipe L (YDict d') p = Inr q' \<longrightarrow>
        headings (calls p') = headings (calls q'))"
proof -
  have opt: "\<And>d. (if truthy (dict_get d ''optional'' YNull) then [YStr ''Optional''] else []) =
        (case map_of d ''optional'' of
           None \<Rightarrow> []
         | Some v \<Rightarrow> if truthy v then [YStr ''Optional''] else [])"
    subgoal for d by (cases "map_of d ''optional''") (simp_all add: dict_get_def)
    done
  have order: "render_recipe L (YDict d) p = Inr p' \<Longrightarrow>
      headings (calls p') =
        headings (calls p)
        @ (case map_of d ''name'' of None \<Rightarrow> [] | Some name \<Rightarrow> [name])
        @ (if has_key d ''components'' then [YStr ''Components''] else [])
        @ (if has_key d ''ingredients'' then [YStr ''Ingredients''] else [])
        @ (case map_of d ''optional'' of
             None \<Rightarrow> []
           | Some v \<Rightarrow> if truthy v then [YStr ''Optional''] else [])
        @ (if has_key d ''steps'' then [YStr ''Steps''] else [])
        @ (if has_key d ''steps_alt'' then [YStr ''Alternative Steps''] else [])
        @ (if has_key d ''substitutions'' then [YStr ''Substitutions''] else [])
        @ (if has_key d ''garnishes'' then [YStr ''Garnishes''] else [])
        @ (if has_key d ''notes'' then [YStr ''Notes''] else [])" for d p'
    using render_recipe_heading [of L d]
    unfolding emits_def headings_def opt by blast
  have same: "map_of d = map_of d' \<Longrightarrow> render_recipe L (YDict d) p = Inr p' \<Longrightarrow>
      render_recipe L (YDict d') p = Inr q' \<Longrightarrow> headings (calls p') = headings (calls q')"
    using order [of d p'] order [of d' q'] by (simp add: has_key_def)
  from order [of d p'] same show ?thesis by blast
qed

theorem render_recipe_section_order_examples:
  "rendered_headings sample_lib
     (YDict [(''notes'', YList [YStr ''serve warm'']), (''name'', YStr ''Soup''),
             (''steps'', YList [YStr ''boil'', YStr ''stir''])]) fresh_pdf
   = Inr [YStr ''Soup'', YStr ''Steps'', YStr ''Notes'']"
proof -
  let ?d = "[(''notes'', YList [YStr ''serve warm'']), (''name'', YStr ''Soup''),
             (''steps'', YList [YStr ''boil'', YStr ''stir''])]"
  have "case render_recipe sample_lib (YDict ?d) fresh_pdf of Inl e \<Rightarrow> False | Inr q \<Rightarrow> True"
    by code_simp
  then obtain q where q: "render_recipe sample_lib (YDict ?d) fresh_pdf = Inr q"
    by (auto split: sum.splits)
  from render_recipe_section_order [of sample_lib ?d fresh_pdf q, THEN conjunct1] q
  have "headings (calls q) =
          headings (calls fresh_pdf) @ [YStr ''Soup'', YStr ''Steps'', YStr ''Notes'']"
    by (simp add: has_key_def)
  with q show ?thesis
    by (simp add: rendered_headings_def)
qed

text \<open>The claim as stated renders every section whose field is present; a record with an
  empty \<^verbatim>\<open>optional\<close> list has the field and gets no Optional section.\<close>

theorem render_recipe_empty_optional:
  "has_key [(''name'', YStr ''Salad''), (''optional'', YList [])] ''optional'' \<and>
   rendered_headings sample_lib
     (YDict [(''name'', YStr ''Salad''), (''optional'', YList [])]) fresh_pdf
   = Inr [YStr ''Salad'']"
  by code_simp

text \<open>The numbered lines of a list of steps.\<close>

lemma emits_fpdf_eq: "proj c = ts \<Longrightarrow> emits proj (fpdf L c) ts"
  using emits_fpdf [of proj L c] by simp

lemma numbered_line_wrapped:
  "emits wrapped (numbered_line L n t i) [YStr (str_nat n @ ''.  '' @ py_str t)]"
proof -
  have "emits wrapped (numbered_line L n t i)
          ([] @ [] @ [] @ [YStr (str_nat n @ ''.  '' @ py_str t)] @ [] @ [])"
    unfolding numbered_line_def Let_def
    by (intro emits_cons emits_nil) (simp_all add: emits_fpdf_eq quiet_set_font)
  then show ?thesis by simp
qed

lemma render_steps_texts:
  assumes "render_steps L (YList steps) indent p = Inr p'"
  shows "wrapped_texts (calls p') =
           wrapped_texts (calls p)
           @ map (\<lambda>(n, step). YStr (str_nat n @ ''.  '' @ py_str (step_text step)))
               (enumerate 1 steps)"
proof -
  have "emits wrapped
          (for_each (\<lambda>(i, step). numbered_line L i (step_text step) indent) (enumerate 1 steps))
          (concat (map (\<lambda>(n, step). [YStr (str_nat n @ ''.  '' @ py_str (step_text step))])
                     (enumerate 1 steps)))"
  proof (rule emits_for_each)
    fix x :: "nat \<times> yaml"
    show "emits wrapped ((\<lambda>(i, step). numbered_line L i (step_text step) indent) x)
            ((\<lambda>(n, step). [YStr (str_nat n @ ''.  '' @ py_str (step_text step))]) x)"
      by (cases x) (simp only: prod.case numbered_line_wrapped)
  qed
  moreover have "concat (map (\<lambda>(n, step). [YStr (str_nat n @ ''.  '' @ py_str (step_text step))]) xs)
      = map (\<lambda>(n, step). YStr (str_nat n @ ''.  '' @ py_str (step_text step))) xs"
    for xs :: "(nat \<times> yaml) list"
    by (induction xs) auto
  ultimately show ?thesis
    using assms
    by (simp add: emits_def render_steps_def with_value_def wrapped_texts_def)
qed

lemma succeeds_render_steps:
  assumes "never_raises L"
  shows "succeeds (render_steps L (YList steps) indent)"
proof -
  have "succeeds (for_each (\<lambda>(i, step). numbered_line L i (step_text step) indent)
                   (enumerate 1 steps))"
    by (rule succeeds_for_each) (auto simp: succeeds_numbered_line [OF assms])
  then show ?thesis
    by (simp add: succeeds_def render_steps_def with_value_def)
qed

lemma foldl_rebind:
  "kvs \<noteq> [] \<Longrightarrow> foldl (\<lambda>acc kv. g kv) a kvs = g (last kvs)"
  by (induction kvs arbitrary: a rule: rev_induct) simp_all

lemma step_text_last:
  "kvs \<noteq> [] \<Longrightarrow>
   step_text (YDict kvs) = YStr (fst (last kvs) @ '': '' @ py_str (snd (last kvs)))"
  using foldl_rebind [of kvs "\<lambda>kv. YStr (fst kv @ '': '' @ py_str (snd kv))" "YDict kvs"]
  by simp

text \<open>
  Claim C5. A run of the step renderer on a sequence of steps that returns has added one
  numbered line per step, in sequence order, the \<open>n\<close>-th reading \<^verbatim>\<open>"{n}.  {text}"\<close> with \<open>n\<close>
  counting from 1; the text of a plain string is the string, and the text of a single-key
  mapping is \<^verbatim>\<open>"{key}: {value}"\<close>. With a library that does not raise, the run returns.
\<close>

theorem render_steps_numbering:
  "(render_steps L (YList steps) indent p = Inr p' \<longrightarrow>
      wrapped_texts (calls p') =
        wrapped_texts (calls p)
        @ map (\<lambda>(n, step). YStr (str_nat n @ ''.  '' @ py_str (step_text step)))
            (zip [1..<Suc (length steps)] steps))
   \<and> step_text (YStr s) = YStr s
   \<and> step_text (YDict [(k, v)]) = YStr (k @ '': '' @ py_str v)
   \<and> (never_raises L \<longrightarrow> (\<exists>q. render_steps L (YList steps) indent p = Inr q))"
  using render_steps_texts [of L steps indent p p'] succeeds_render_steps [of L steps indent]
  by (auto simp: enumerate_eq_zip succeeds_def)

theorem render_steps_numbering_examples:
  "\<exists>q. render_steps sample_lib
          (YList [YStr ''boil'', YDict [(''optional'', YStr ''stir'')], YStr ''serve'']) 0
          fresh_pdf = Inr q
      \<and> wrapped_texts (calls q) =
          [YStr ''1.  boil'', YStr ''2.  optional: stir'', YStr ''3.  serve'']"
proof -
  let ?steps = "[YStr ''boil'', YDict [(''optional'', YStr ''stir'')], YStr ''serve'']"
  from render_steps_numbering [of sample_lib ?steps 0 fresh_pdf] never_raises_sample
  obtain q where q: "render_steps sample_lib (YList ?steps) 0 fresh_pdf = Inr q"
    by blast
  have nums: "str_nat (Suc 0) = ''1''" "str_nat 2 = ''2''" "str_nat 3 = ''3''"
    by code_simp+
  have range: "[1..<Suc (length ?steps)] = [1, 2, 3]"
    by (simp add: upt_rec)
  from render_steps_numbering [of sample_lib ?steps 0 fresh_pdf q] q
  have "wrapped_texts (calls q) =
          [YStr ''1.  boil'', YStr ''2.  optional: stir'', YStr ''3.  serve'']"
    unfolding range by (simp add: nums fresh_pdf_def wrapped_texts_def)
  with q show ?thesis by blast
qed

text \<open>
  Claim C10. A step that is a mapping with more than one key gets exactly one numbered
  line, at its own place in the sequence, and its text is \<^verbatim>\<open>"{key}: {value}"\<close> for the last
  pair of the mapping; the earlier pairs do not appear.
\<close>

theorem multi_key_step_last_pair:
  assumes "1 < length kvs"
    and "render_steps L (YList (pre @ [YDict kvs] @ post)) indent p = Inr p'"
  shows "\<exists>before after.
           length before = length pre \<and> length after = length post \<and>
           wrapped_texts (calls p') =
             wrapped_texts (calls p) @ before
             @ [YStr (str_nat (Suc (length pre)) @ ''.  ''
                      @ fst (last kvs) @ '': '' @ py_str (snd (last kvs)))]
             @ after"
proof -
  let ?line = "\<lambda>(n, step). YStr (str_nat n @ ''.  '' @ py_str (step_text step))"
  from assms(1) have "kvs \<noteq> []" by auto
  then have last_pair: "step_text (YDict kvs) = YStr (fst (last kvs) @ '': '' @ py_str (snd (last kvs)))"
    by (rule step_text_last)
  have "enumerate 1 (pre @ [YDict kvs] @ post) =
          enumerate 1 pre @ [(Suc (length pre), YDict kvs)] @ enumerate (Suc (Suc (length pre))) post"
    by (simp add: enumerate_append_eq)
  with render_steps_texts [OF assms(2)] last_pair
  have "wrapped_texts (calls p') =
          wrapped_texts (calls p) @ map ?line (enumerate 1 pre)
          @ [YStr (str_nat (Suc (length pre)) @ ''.  ''
                   @ fst (last kvs) @ '': '' @ py_str (snd (last kvs)))]
          @ map ?line (enumerate (Suc (Suc (length pre))) post)"
    by simp
  moreover have "length (map ?line (enumerate 1 pre)) = length pre"
    and "length (map ?line (enumerate (Suc (Suc (length pre))) post)) = length post"
    by simp_all
  ultimately show ?thesis by blast
qed

theorem multi_key_step_last_pair_examples:
  "\<exists>q. render_steps sample_lib
          (YList [YStr ''boil'', YDict [(''optional'', YStr ''stir''), (''then'', YStr ''rest'')]]) 0
          fresh_pdf = Inr q
      \<and> wrapped_texts (calls q) = [YStr ''1.  boil'', YStr ''2.  then: rest'']"
proof -
  let ?kvs = "[(''optional'', YStr ''stir''), (''then'', YStr ''rest'')]"
  have "case render_steps sample_lib (YList ([YStr ''boil''] @ [YDict ?kvs] @ [])) 0 fresh_pdf
        of Inl e \<Rightarrow> False | Inr q \<Rightarrow> True"
    by code_simp
  then obtain q where
    q: "render_steps sample_lib (YList ([YStr ''boil''] @ [YDict ?kvs] @ [])) 0 fresh_pdf = Inr q"
    by (auto split: sum.splits)
  have len: "1 < length ?kvs" by simp
  from multi_key_step_last_pair [OF len q]
  obtain before after where
    b: "length before = length [YStr ''boil'']" and a: "length after = length ([] :: yaml list)"
    and t: "wrapped_texts (calls q) =
             wrapped_texts (calls fresh_pdf) @ before
             @ [YStr (str_nat (Suc (length [YStr ''boil''])) @ ''.  ''
                      @ fst (last ?kvs) @ '': '' @ py_str (snd (last ?kvs)))]
             @ after"
    by blast
  have direct: "wrapped_texts (calls q) ! 0 = YStr ''1.  boil''"
  proof -
    have "case render_steps sample_lib (YList ([YStr ''boil''] @ [YDict ?kvs] @ [])) 0 fresh_pdf
          of Inl e \<Rightarrow> False | Inr q \<Rightarrow> wrapped_texts (calls q) ! 0 = YStr ''1.  boil''"
      by code_simp
    with q show ?thesis by simp
  qed
  have two: "str_nat (Suc (Suc 0)) = ''2''" by code_simp
  from a have after: "after = []" by simp
  from b obtain x where before: "before = [x]"
    by (cases before) auto
  from t have "wrapped_texts (calls q) = [x, YStr ''2.  then: rest'']"
    by (simp add: after before two fresh_pdf_def wrapped_texts_def)
  with direct have "wrapped_texts (calls q) = [YStr ''1.  boil'', YStr ''2.  then: rest'']"
    by simp
  with q show ?thesis by simp
qed

section \<open>Properties of the batch driver\<close>

lemma process_file_written:
  assumes "process_file L t f = Inr t'"
  shows "written t' = written t @ file_docs L f"
  using assms
  by (auto simp: process_file_def file_docs_def and_then_def
           split: sum.splits if_splits option.splits)

lemma main_loop_written:
  "main_loop L fs t = Inr t' \<Longrightarrow> written t' = written t @ concat (map (file_docs L) fs)"
proof (induction fs arbitrary: t)
  case Nil
  then show ?case by simp
next
  case (Cons f fs)
  from Cons.prems obtain u where u: "process_file L t f = Inr u"
    and rest: "main_loop L fs u = Inr t'"
    by (auto split: sum.splits)
  from Cons.IH [OF rest] process_file_written [OF u] show ?case by simp
qed

lemma process_file_counts:
  assumes "process_file L t f = Inr t'"
  shows "success_count t' + error_count t' = Suc (success_count t + error_count t)"
    and "success_count t' = success_count t + length (file_docs L f)"
  using assms
  by (auto simp: process_file_def file_docs_def and_then_def
           split: sum.splits if_splits option.splits)

lemma main_loop_counts:
  "main_loop L fs t = Inr t' \<Longrightarrow>
   success_count t' + error_count t' = success_count t + error_count t + length fs
   \<and> success_count t' = success_count t + length (concat (map (file_docs L) fs))"
proof (induction fs arbitrary: t)
  case Nil
  then show ?case by simp
next
  case (Cons f fs)
  from Cons.prems obtain u where u: "process_file L t f = Inr u"
    and rest: "main_loop L fs u = Inr t'"
    by (auto split: sum.splits)
  from Cons.IH [OF rest] process_file_counts [OF u] show ?case by simp
qed

text \<open>When no output directory fails, the batch runs to its end: every file is counted
  once, as a success with its one document or as an error with none, and the exit code
  is 1 exactly when some file was an error.\<close>

lemma main_loop_returns:
  assumes "\<forall>f \<in> set fs. \<not> mkdir_raises f \<and> (\<exists>out. output_path_of f = Inr out)"
  shows "\<exists>t'. main_loop L fs t = Inr t'"
  using assms
proof (induction fs arbitrary: t)
  case Nil
  then show ?case by simp
next
  case (Cons f fs)
  then obtain u where "process_file L t f = Inr u"
    by (auto simp: process_file_def and_then_def)
  with Cons show ?case by auto
qed

lemma main_exit_code:
  assumes "main L fs = Inr (code, t)"
  shows "code \<noteq> 0 \<longleftrightarrow> fs = [] \<or> 0 < error_count t"
  using assms
  by (auto simp: main_def and_then_def no_files_def split: if_splits sum.splits)

text \<open>A file that cannot be loaded, or whose record is empty or has no \<^verbatim>\<open>name\<close>, is
  counted as an error and gets no document.\<close>

lemma invalid_file_is_error:
  assumes "loaded f = Inl e \<or> loaded f = Inr data \<and> (\<not> truthy data \<or> py_contains ''name'' data = Inr False)"
    and "process_file L t f = Inr t'"
  shows "error_count t' = Suc (error_count t) \<and> success_count t' = success_count t
         \<and> written t' = written t"
  using assms
  by (auto simp: process_file_def try_file_def and_then_def split: sum.splits if_splits)

text \<open>
  Claim C6 at a failing input. The output directory of the first file cannot be created
  (say \<^verbatim>\<open>PDF/a\<close> exists as a regular file): line 366 stands before the \<^verbatim>\<open>try\<close>, so the
  exception leaves \<^verbatim>\<open>main\<close> and the second file, which is valid, is never processed.
  With the directory in place the same batch writes both documents and exits with 0.
\<close>

theorem main_mkdir_failure_aborts:
  "main sample_lib
     [\<lparr>rel_path = ''a/x.yaml'', mkdir_raises = True,
       loaded = Inr (YDict [(''name'', YStr ''Soup'')]), fonts = None\<rparr>,
      \<lparr>rel_path = ''b.yaml'', mkdir_raises = False,
       loaded = Inr (YDict [(''name'', YStr ''Bread'')]), fonts = None\<rparr>]
   = Inl OSError
   \<and> map_sum id (\<lambda>(code, t). (code, success_count t, error_count t, map fst (written t)))
       (main sample_lib
          [\<lparr>rel_path = ''a/x.yaml'', mkdir_raises = False,
            loaded = Inr (YDict [(''name'', YStr ''Soup'')]), fonts = None\<rparr>,
           \<lparr>rel_path = ''b.yaml'', mkdir_raises = False,
            loaded = Inr (YDict [(''name'', YStr ''Bread'')]), fonts = None\<rparr>])
     = Inr (0, 2, 0, [''PDF/a/x.pdf'', ''PDF/b.pdf''])"
  by code_simp

text \<open>A document that is written is what \<^verbatim>\<open>render_recipe\<close> makes of the file's record on
  a renderer constructed for that file; the documents of a batch are those of its files,
  in order.\<close>

lemma try_file_document:
  assumes "try_file L f out = Inr (Some doc)"
  shows "\<exists>data pdf0 pdf. loaded f = Inr data \<and> RecipePDF_init L (fonts f) = Inr pdf0
           \<and> render_recipe L data pdf0 = Inr pdf \<and> doc = calls pdf"
  using assms
  by (auto simp: try_file_def and_then_def split: sum.splits if_splits)

lemma main_written:
  assumes "main L fs = Inr (code, t)"
  shows "written t = concat (map (file_docs L) fs)"
proof (cases "fs = []")
  case True
  with assms show ?thesis by (auto simp: main_def no_files_def)
next
  case False
  with assms have "main_loop L fs no_files = Inr t"
    by (auto simp: main_def and_then_def split: sum.splits)
  from main_loop_written [OF this] show ?thesis by (simp add: no_files_def)
qed

end
